theory Spec2Isabelle
  imports Complex_Main "HOL-Library.AList" "HOL-Library.Char_ord" "HOL-Library.List_Lexorder"
begin

section \<open>Python values used by the converter\<close>

text \<open>
  Strings are lists of characters with code points below 256. A spreadsheet cell, as the
  table library hands it over, is blank (\<open>None\<close>, the NaN of the library), a text, or
  a number; a number carries its value and the text that \<open>str\<close> gives for it. \<open>str\<close>
  of a blank cell is \<open>nan\<close>. A text is equal to no number. A Python dict whose key
  order matters is an association list, written to with \<open>AList.update\<close> (an existing
  key keeps its place, a new key goes to the end).
\<close>

datatype cell_value = Text string | Number rat string

type_synonym cell = "cell_value option"
type_synonym pydict = "(string \<times> string) list"

definition quote :: string where
  "quote = [CHR 0x27]"

fun str_value :: "cell_value \<Rightarrow> string" where
  "str_value (Text s) = s"
| "str_value (Number v s) = s"

definition str_cell :: "cell \<Rightarrow> string" where
  "str_cell c = (case c of None \<Rightarrow> ''nan'' | Some v \<Rightarrow> str_value v)"

text \<open>\<open>str.isspace\<close> and \<open>str.isalnum\<close> on the code points below 256.\<close>

definition isspace :: "char \<Rightarrow> bool" where
  "isspace c = (let n = (of_char c :: nat) in
     (9 \<le> n \<and> n \<le> 13) \<or> (28 \<le> n \<and> n \<le> 32) \<or> n = 133 \<or> n = 160)"

definition isalnum :: "char \<Rightarrow> bool" where
  "isalnum c = (let n = (of_char c :: nat) in
     (48 \<le> n \<and> n \<le> 57) \<or> (65 \<le> n \<and> n \<le> 90) \<or> (97 \<le> n \<and> n \<le> 122) \<or>
     n = 170 \<or> n = 178 \<or> n = 179 \<or> n = 181 \<or> n = 185 \<or> n = 186 \<or>
     (188 \<le> n \<and> n \<le> 190) \<or> (192 \<le> n \<and> n \<le> 214) \<or> (216 \<le> n \<and> n \<le> 246) \<or>
     (248 \<le> n \<and> n \<le> 255))"

definition lstrip :: "string \<Rightarrow> string" where
  "lstrip s = dropWhile isspace s"

definition rstrip :: "string \<Rightarrow> string" where
  "rstrip s = rev (dropWhile isspace (rev s))"

definition strip :: "string \<Rightarrow> string" where
  "strip s = lstrip (rstrip s)"

text \<open>\<open>list.index\<close>: the first position of an element (called only after \<open>in\<close>).\<close>

fun index_of :: "'a \<Rightarrow> 'a list \<Rightarrow> nat" where
  "index_of x [] = 0"
| "index_of x (y # ys) = (if x = y then 0 else Suc (index_of x ys))"

text \<open>The text of a list of plain column names inside an f-string: \<open>['A', 'B']\<close>.\<close>

fun join_comma :: "string list \<Rightarrow> string" where
  "join_comma [] = []"
| "join_comma [s] = s"
| "join_comma (s # t # ss) = s @ '', '' @ join_comma (t # ss)"

definition repr_list :: "string list \<Rightarrow> string" where
  "repr_list ss = ''['' @ join_comma (map (\<lambda>s. quote @ s @ quote) ss) @ '']''"

text \<open>
  \<open>str.upper\<close> on the code points below 256. The upper-case forms of code points 181
  and 255 lie beyond 255: \<open>beyond_upper\<close> marks them.
\<close>

definition upper_char :: "char \<Rightarrow> string" where
  "upper_char c = (let n = (of_char c :: nat) in
     if (97 \<le> n \<and> n \<le> 122) \<or> (224 \<le> n \<and> n \<le> 254 \<and> n \<noteq> 247) then [char_of (n - 32)]
     else if n = 223 then ''SS''
     else [c])"

definition upper :: "string \<Rightarrow> string" where
  "upper s = concat (map upper_char s)"

definition beyond_upper :: "char \<Rightarrow> bool" where
  "beyond_upper c = (of_char c = (181 :: nat) \<or> of_char c = (255 :: nat))"

section \<open>The object graph\<close>

text \<open>
  An object instance as the update and extraction code reads it: \<open>obj\<close> is the list of
  its field values (as text), \<open>fieldnames\<close> the ordered field names that the
  dictionary file declares for its type. \<open>idfobjects\<close> maps an object type to the
  sequence of its instances, in file order. The object-model library keys the mapping
  by the upper-case type name and looks a name up whatever its case: \<open>type_key\<close> is
  the key that a name stands for (none, when its upper-case form has a character beyond
  code point 255, which no key of the model has), \<open>idfobjects_get\<close> the lookup behind
  \<open>name in idf.idfobjects\<close> and \<open>idf.idfobjects[name]\<close>.
\<close>

record idfobject =
  obj :: "string list"
  fieldnames :: "string list"

type_synonym idfobjects = "(string \<times> idfobject list) list"

definition type_key :: "string \<Rightarrow> string option" where
  "type_key name = (if \<exists>c \<in> set name. beyond_upper c then None else Some (upper name))"

definition idfobjects_get :: "idfobjects \<Rightarrow> string \<Rightarrow> idfobject list option" where
  "idfobjects_get idf name = (case type_key name of None \<Rightarrow> None | Some k \<Rightarrow> map_of idf k)"

text \<open>
  Modelled from the spec: the attribute \<open>Name\<close> of an instance, which the object-model
  library provides and the source only reads (\<open>hasattr(obj, 'Name')\<close>, \<open>obj.Name\<close>). The
  spec: a distinguished field, or absent, yields the instance's Name. The instance has
  the attribute when its field names list \<open>Name\<close>; its value is the field value at that
  position, the empty text when the instance has no value there.
\<close>

definition hasattr_Name :: "idfobject \<Rightarrow> bool" where
  "hasattr_Name ob = (''Name'' \<in> set (fieldnames ob))"

definition Name :: "idfobject \<Rightarrow> string" where
  "Name ob = (let i = index_of ''Name'' (fieldnames ob)
              in if i < length (obj ob) then obj ob ! i else [])"

section \<open>Extraction: \<open>extract_idf_data\<close>\<close>

definition object_records :: "idfobject \<Rightarrow> pydict list" where
  "object_records ob =
     (let obj_list = obj ob; field_names = fieldnames ob
      in map (\<lambda>(i, field_value).
                [(''ObjectName'', if hasattr_Name ob then Name ob else ''N/A''),
                 (''FieldName'', field_names ! i),
                 (''Value'', field_value),
                 (''Unit'', [])])
             (filter (\<lambda>p. fst p < length field_names) (enumerate 0 obj_list)))"

definition extract_for_type :: "idfobjects \<Rightarrow> string \<Rightarrow> (string \<times> pydict list) list
      \<Rightarrow> (string \<times> pydict list) list" where
  "extract_for_type idf obj_type all_sheets_data =
     (case map_of idf obj_type of
        None \<Rightarrow> all_sheets_data
      | Some objects \<Rightarrow>
          if objects \<noteq> [] then
            (let object_data = concat (map object_records objects)
             in if object_data \<noteq> [] then AList.update obj_type object_data all_sheets_data
                else all_sheets_data)
          else all_sheets_data)"

text \<open>
  The argument is what building the graph from the model text gave: \<open>Inl\<close> the message
  of the exception it raised, \<open>Inr\<close> the graph. An exception makes the result \<open>None\<close>.
\<close>

definition extract_idf_data :: "string + idfobjects \<Rightarrow> (string \<times> pydict list) list option" where
  "extract_idf_data parsed =
     (case parsed of
        Inl e \<Rightarrow> None
      | Inr idf \<Rightarrow> Some (fold (extract_for_type idf) (map fst idf) []))"

section \<open>Tables and the writer: \<open>write_data_to_excel\<close>\<close>

text \<open>
  A table has its column names and its rows; a row gives the cell of a column. Building
  a table from a list of dicts of texts takes the keys in order of first appearance as
  columns; a key that a dict lacks gives a blank cell.
\<close>

type_synonym row = "string \<Rightarrow> cell"

record dataframe =
  columns :: "string list"
  rows :: "row list"

fun ordered_keys :: "string list \<Rightarrow> string list \<Rightarrow> string list" where
  "ordered_keys seen [] = seen"
| "ordered_keys seen (k # ks) = ordered_keys (if k \<in> set seen then seen else seen @ [k]) ks"

definition DataFrame :: "pydict list \<Rightarrow> dataframe" where
  "DataFrame data = \<lparr>columns = ordered_keys [] (concat (map (map fst) data)),
                     rows = map (\<lambda>d c. map_option Text (map_of d c)) data\<rparr>"

definition empty_df :: "dataframe \<Rightarrow> bool" where
  "empty_df df = (columns df = [] \<or> rows df = [])"

definition dict_merge :: "pydict \<Rightarrow> pydict \<Rightarrow> pydict" where
  "dict_merge d e = fold (\<lambda>(k, v). AList.update k v) e d"

definition sheet_name_of :: "string \<Rightarrow> string" where
  "sheet_name_of obj_type =
     take 31 (rstrip (filter (\<lambda>c. isalnum c \<or> c = CHR '' '' \<or> c = CHR ''_'') obj_type))"

text \<open>
  The writer returns nothing: what it does is the sequence of sheets it hands to the
  spreadsheet container, in order, and the lines it prints (here by kind, with the
  values they show; the path of the success line stands for its absolute form). The
  container refuses an empty sheet title by raising: the loop over the object types
  stops at the first type whose sanitized name is empty, before that table is handed
  over and before its line is printed, and the handler of the writer prints the error
  line instead of the success line. Other failures of the container are outside the
  model.
\<close>

datatype message =
    No_data
  | Records string nat
  | Success string nat
  | Write_error

record excel_output =
  written :: "(string \<times> dataframe) list"
  printed :: "message list"

definition all_data_of :: "(string \<times> pydict list) list \<Rightarrow> pydict list" where
  "all_data_of all_sheets_data =
     concat (map (\<lambda>(obj_type, data).
                    map (\<lambda>record. dict_merge [(''ObjectType'', obj_type)] record) data)
                 all_sheets_data)"

definition write_data_to_excel ::
    "(string \<times> pydict list) list option \<Rightarrow> string \<Rightarrow> bool \<Rightarrow> excel_output" where
  "write_data_to_excel all_sheets_data output_excel_path include_individual_sheets =
     (case all_sheets_data of
        None \<Rightarrow> \<lparr>written = [], printed = [No_data]\<rparr>
      | Some sheets_data \<Rightarrow>
          if sheets_data = [] then \<lparr>written = [], printed = [No_data]\<rparr>
          else
            (let all_data = all_data_of sheets_data;
                 all_written = (if all_data \<noteq> [] then [(''ALL'', DataFrame all_data)] else []);
                 all_printed = (if all_data \<noteq> [] then [Records ''ALL'' (length all_data)] else []);
                 individual = (if include_individual_sheets then sheets_data else []);
                 accepted = takeWhile (\<lambda>(obj_type, data). sheet_name_of obj_type \<noteq> []) individual;
                 total_sheets = 1 + (if include_individual_sheets then length sheets_data else 0)
             in \<lparr>written = all_written @
                    map (\<lambda>(obj_type, data). (sheet_name_of obj_type, DataFrame data)) accepted,
                  printed = all_printed @
                    map (\<lambda>(obj_type, data). Records obj_type (length data)) accepted @
                    [if accepted = individual then Success output_excel_path total_sheets
                     else Write_error]\<rparr>))"

section \<open>Reading the edit tables: \<open>read_excel_data\<close>, \<open>validate_excel_for_update\<close>\<close>

type_synonym sheets = "(string \<times> dataframe) list"

datatype error = FileNotFoundError string | ValueError string

definition required_columns :: "string list" where
  "required_columns = [''ObjectName'', ''FieldName'', ''Value'']"

definition missing_columns :: "dataframe \<Rightarrow> string list" where
  "missing_columns df = filter (\<lambda>col. col \<notin> set (columns df)) required_columns"

text \<open>
  The column check of \<open>read_excel_data\<close> raises at the first sheet, in sheet order,
  that misses a required column: the result is the message of that exception.
\<close>

fun first_missing :: "sheets \<Rightarrow> string option" where
  "first_missing [] = None"
| "first_missing ((sheet_name, df) # rest) =
     (if sheet_name \<noteq> ''ALL'' \<and> missing_columns df \<noteq> []
      then Some (''Sheet '' @ quote @ sheet_name @ quote @ '' missing required columns: ''
                 @ repr_list (missing_columns df))
      else first_missing rest)"

text \<open>
  \<open>path_exists\<close> is the answer of \<open>os.path.exists\<close> for the path; \<open>loaded\<close> is what
  opening the spreadsheet container gave: \<open>Inl\<close> the message of the exception raised,
  \<open>Inr\<close> the sheets by name, in container order.
\<close>

definition read_excel_data :: "bool \<Rightarrow> string \<Rightarrow> string + sheets \<Rightarrow> error + sheets" where
  "read_excel_data path_exists excel_file_path loaded =
     (if \<not> path_exists then Inl (FileNotFoundError (''Excel file not found: '' @ excel_file_path))
      else case loaded of
        Inl e \<Rightarrow> Inl (ValueError (''Error reading Excel file: '' @ e))
      | Inr excel_data \<Rightarrow>
          (case first_missing excel_data of
             Some e \<Rightarrow> Inl (ValueError (''Error reading Excel file: '' @ e))
           | None \<Rightarrow> Inr excel_data))"

text \<open>The messages of one sheet, looked up by its name: missing columns first, then empty.\<close>

definition sheet_messages :: "sheets \<Rightarrow> string \<Rightarrow> string list" where
  "sheet_messages excel_data sheet_name =
     (case map_of excel_data sheet_name of
        None \<Rightarrow> []
      | Some df \<Rightarrow>
          (if missing_columns df \<noteq> []
           then [''Sheet '' @ quote @ sheet_name @ quote @ '' missing columns: ''
                 @ repr_list (missing_columns df)]
           else []) @
          (if empty_df df then [''Sheet '' @ quote @ sheet_name @ quote @ '' is empty''] else []))"

definition validate_excel_for_update ::
    "bool \<Rightarrow> string \<Rightarrow> string + sheets \<Rightarrow> bool \<times> string list" where
  "validate_excel_for_update path_exists excel_file_path loaded =
     (if \<not> path_exists then (False, [''File not found: '' @ excel_file_path])
      else case loaded of
        Inl e \<Rightarrow> (False, [''Error reading Excel file: '' @ e])
      | Inr excel_data \<Rightarrow>
          (let object_sheets = filter (\<lambda>name. name \<noteq> ''ALL'') (map fst excel_data)
           in if object_sheets = []
              then (False, [''No object-specific sheets found (only '' @ quote @ ''ALL'' @ quote
                            @ '' sheet present)''])
              else
                (let messages = concat (map (sheet_messages excel_data) object_sheets)
                 in if messages \<noteq> [] then (False, messages)
                    else (True, [''Excel file format is valid for IDF updates'']))))"

text \<open>
  The two messages of a sheet written out character by character, for a sheet name and
  the first and the further missing columns, and the messages of a sheet stated on the
  sheet itself.
\<close>

definition missing_text :: "string \<Rightarrow> string \<Rightarrow> string list \<Rightarrow> string" where
  "missing_text sheet_name c cs =
     ''Sheet '' @ [CHR 0x27] @ sheet_name @ [CHR 0x27] @ '' missing columns: [''
     @ [CHR 0x27] @ c @ [CHR 0x27]
     @ concat (map (\<lambda>s. '', '' @ [CHR 0x27] @ s @ [CHR 0x27]) cs) @ '']''"

definition empty_text :: "string \<Rightarrow> string" where
  "empty_text sheet_name = ''Sheet '' @ [CHR 0x27] @ sheet_name @ [CHR 0x27] @ '' is empty''"

definition violation_texts :: "string \<times> dataframe \<Rightarrow> string list" where
  "violation_texts p =
     (case missing_columns (snd p) of
        [] \<Rightarrow> []
      | c # cs \<Rightarrow> [missing_text (fst p) c cs]) @
     (if columns (snd p) = [] \<or> rows (snd p) = [] then [empty_text (fst p)] else [])"

section \<open>The update engine: \<open>update_idf_from_excel\<close>\<close>

record update_record =
  object_type :: string
  object_name :: string
  field_name :: string
  old_value :: string
  new_value :: string

record stats =
  total_updates :: int
  successful_updates :: int
  failed_updates :: int
  warnings :: "string list"
  errors :: "string list"
  updated_objects :: "update_record list"

definition initial_stats :: stats where
  "initial_stats = \<lparr>total_updates = 0, successful_updates = 0, failed_updates = 0,
                     warnings = [], errors = [], updated_objects = []\<rparr>"

text \<open>
  Grouping a table by a column, as the table library does it: one group per distinct
  non-blank key, each group holding its rows in table order; rows with a blank key
  belong to no group. Numbers of the same value are one key (the first of them in table
  order stands for the group) and differ from every text. The groups come with the
  number keys first, by ascending value, then the text keys in ascending order.
\<close>

fun key_matches :: "cell_value \<Rightarrow> cell \<Rightarrow> bool" where
  "key_matches (Text s) (Some (Text s')) = (s = s')"
| "key_matches (Number v t) (Some (Number v' t')) = (v = v')"
| "key_matches k c = False"

definition number_keys :: "cell_value list \<Rightarrow> cell_value list" where
  "number_keys ks =
     map (\<lambda>v. hd (filter (\<lambda>k. key_matches k (Some (Number v []))) ks))
         (sort (remdups (List.map_filter (\<lambda>k. case k of Number v t \<Rightarrow> Some v | Text s \<Rightarrow> None) ks)))"

definition text_keys :: "cell_value list \<Rightarrow> cell_value list" where
  "text_keys ks =
     map Text (sort (remdups (List.map_filter (\<lambda>k. case k of Text s \<Rightarrow> Some s | Number v t \<Rightarrow> None) ks)))"

definition groupby :: "string \<Rightarrow> dataframe \<Rightarrow> (cell_value \<times> row list) list" where
  "groupby col df =
     map (\<lambda>k. (k, filter (\<lambda>r. key_matches k (r col)) (rows df)))
         (let ks = List.map_filter (\<lambda>r. r col) (rows df) in number_keys ks @ text_keys ks)"

text \<open>
  The position of the first instance that has a Name equal to the group's key; no Name
  is equal to a number. An instance that the search finds counts as found: instances of
  the object-model library are truthy.
\<close>

fun find_matching :: "idfobject list \<Rightarrow> cell_value \<Rightarrow> nat option" where
  "find_matching [] key = None"
| "find_matching (ob # obs) key =
     (if hasattr_Name ob \<and> Text (Name ob) = key then Some 0
      else map_option Suc (find_matching obs key))"

text \<open>
  One row applied to the matched instance; \<open>oname\<close> is the text of the group's key. A
  field name that is blank or a number is no member of the instance's field names.
  Reading \<open>obj[field_index]\<close> beyond the instance's values raises IndexError, which the
  row's handler records in \<open>errors\<close>.
\<close>

fun process_row :: "string \<Rightarrow> string \<Rightarrow> idfobject \<times> stats \<Rightarrow> row \<Rightarrow> idfobject \<times> stats" where
  "process_row otype oname (matching_object, st) r =
     (let fname = r ''FieldName'';
          new_val = str_cell (r ''Value'');
          field_names = fieldnames matching_object
      in if (case fname of Some (Text f) \<Rightarrow> f \<in> set field_names | _ \<Rightarrow> False) then
           (let field_index = index_of (str_cell fname) field_names
            in if field_index < length (obj matching_object) then
                 (let old_val = obj matching_object ! field_index
                  in if old_val \<noteq> new_val then
                       (matching_object\<lparr>obj := (obj matching_object)[field_index := new_val]\<rparr>,
                        st\<lparr>total_updates := total_updates st + 1,
                           successful_updates := successful_updates st + 1,
                           updated_objects := updated_objects st @
                             [\<lparr>object_type = otype, object_name = oname,
                               field_name = str_cell fname, old_value = old_val,
                               new_value = new_val\<rparr>]\<rparr>)
                     else (matching_object, st))
               else
                 (matching_object,
                  st\<lparr>errors := errors st @
                       [''Error updating field '' @ quote @ str_cell fname @ quote
                        @ '' in object '' @ quote @ oname @ quote @ '': ''
                        @ ''list index out of range''],
                     failed_updates := failed_updates st + 1\<rparr>))
         else
           (matching_object,
            st\<lparr>warnings := warnings st @
                 [''Field '' @ quote @ str_cell fname @ quote @ '' not found in object ''
                  @ quote @ oname @ quote @ '' of type '' @ quote @ otype @ quote],
               failed_updates := failed_updates st + 1\<rparr>))"

definition not_found_warning :: "string \<Rightarrow> string \<Rightarrow> string" where
  "not_found_warning otype oname =
     ''Object '' @ quote @ oname @ quote @ '' of type '' @ quote @ otype @ quote
     @ '' not found in IDF''"

fun process_group ::
    "string \<Rightarrow> idfobject list \<times> stats \<Rightarrow> cell_value \<times> row list \<Rightarrow> idfobject list \<times> stats" where
  "process_group otype (idf_objects, st) (key, group_df) =
     (case find_matching idf_objects key of
        Some i \<Rightarrow>
          (let (matching_object, st') =
                 fold (\<lambda>r acc. process_row otype (str_value key) acc r) group_df
                      (idf_objects ! i, st)
           in (idf_objects[i := matching_object], st'))
      | None \<Rightarrow>
          (idf_objects,
           st\<lparr>warnings := warnings st @ [not_found_warning otype (str_value key)],
              failed_updates := failed_updates st + 1\<rparr>))"

text \<open>
  One sheet. The instances of the sheet's type are looked up whatever the case of the
  trimmed sheet name, and changed in place: the graph holds them under the key that the
  name stands for.
\<close>

fun process_sheet :: "idfobjects \<times> stats \<Rightarrow> string \<times> dataframe \<Rightarrow> idfobjects \<times> stats" where
  "process_sheet (idf, st) (sheet_name, df) =
     (if sheet_name = ''ALL'' then (idf, st)
      else
        (let otype = strip sheet_name
         in case idfobjects_get idf otype of
              None \<Rightarrow> (idf, st)
            | Some idf_objects \<Rightarrow>
                (let (idf_objects', st') =
                       fold (\<lambda>g acc. process_group otype acc g) (groupby ''ObjectName'' df)
                            (idf_objects, st)
                 in (AList.update (upper otype) idf_objects' idf, st'))))"

text \<open>
  The three booleans are the answers of \<open>os.path.exists\<close> for the three input paths;
  \<open>parsed\<close> is what building the graph from the original model text gave and \<open>loaded\<close>
  what opening the spreadsheet gave (\<open>Inl\<close> the message of an exception). The result is
  the exception raised before the statistics exist, or the graph handed to the
  serializer (\<open>None\<close> after a critical error) with the statistics. Writing the
  serialized graph to the output path is outside the model, and so is parsing a model
  text: a second run on the saved text starts from the graph that parsing it gives.
\<close>

definition update_idf_from_excel ::
    "bool \<Rightarrow> bool \<Rightarrow> bool \<Rightarrow> string \<Rightarrow> string \<Rightarrow> string \<Rightarrow> string + idfobjects \<Rightarrow> string + sheets
      \<Rightarrow> error + (idfobjects option \<times> stats)" where
  "update_idf_from_excel idf_exists excel_exists idd_exists
       original_idf_path modified_excel_path idd_path parsed loaded =
     (if \<not> idf_exists
        then Inl (FileNotFoundError (''Original IDF file not found: '' @ original_idf_path))
      else if \<not> excel_exists
        then Inl (FileNotFoundError (''Modified Excel file not found: '' @ modified_excel_path))
      else if \<not> idd_exists
        then Inl (FileNotFoundError (''IDD file not found: '' @ idd_path))
      else
        (case parsed of
           Inl e \<Rightarrow>
             Inr (None, initial_stats\<lparr>errors := [''Critical error during IDF update: '' @ e]\<rparr>)
         | Inr idf \<Rightarrow>
             (case read_excel_data excel_exists modified_excel_path loaded of
                Inl (FileNotFoundError e) \<Rightarrow>
                  Inr (None, initial_stats\<lparr>errors := [''Critical error during IDF update: '' @ e]\<rparr>)
              | Inl (ValueError e) \<Rightarrow>
                  Inr (None, initial_stats\<lparr>errors := [''Critical error during IDF update: '' @ e]\<rparr>)
              | Inr excel_data \<Rightarrow>
                  (let (idf', st) = fold (\<lambda>s acc. process_sheet acc s) excel_data (idf, initial_stats)
                   in Inr (Some idf', st)))))"















text \<open>The three counters agree: every counted update is a successful one with its record.\<close>

definition counts_agree :: "stats \<Rightarrow> bool" where
  "counts_agree st = (total_updates st = successful_updates st \<and>
                      successful_updates st = int (length (updated_objects st)))"

section \<open>Example inputs\<close>

text \<open>
  The model of the example scenario: \<open>Version,22.1.0;\<close> and \<open>Zone,Room101,10.5,20.0;\<close>.
  The first value of an instance is its type key; a Version object has no Name field.
  The graph holds the instances under the upper-case type names.
\<close>

definition example_version :: idfobject where
  "example_version =
     \<lparr>obj = [''Version'', ''22.1.0''], fieldnames = [''key'', ''Version_Identifier'']\<rparr>"

definition example_zone :: idfobject where
  "example_zone = \<lparr>obj = [''Zone'', ''Room101'', ''10.5'', ''20.0''],
                    fieldnames = [''key'', ''Name'', ''Width'', ''Height'']\<rparr>"

definition example_idf :: idfobjects where
  "example_idf = [(''VERSION'', [example_version]), (''ZONE'', [example_zone])]"

definition flat_record :: "string \<Rightarrow> string \<Rightarrow> string \<Rightarrow> pydict" where
  "flat_record n f v = [(''ObjectName'', n), (''FieldName'', f), (''Value'', v), (''Unit'', [])]"

definition example_version_records :: "pydict list" where
  "example_version_records =
     [flat_record ''N/A'' ''key'' ''Version'',
      flat_record ''N/A'' ''Version_Identifier'' ''22.1.0'']"

definition example_zone_records :: "pydict list" where
  "example_zone_records =
     [flat_record ''Room101'' ''key'' ''Zone'',
      flat_record ''Room101'' ''Name'' ''Room101'',
      flat_record ''Room101'' ''Width'' ''10.5'',
      flat_record ''Room101'' ''Height'' ''20.0'']"

definition example_extracted :: "(string \<times> pydict list) list" where
  "example_extracted =
     [(''VERSION'', example_version_records), (''ZONE'', example_zone_records)]"

text \<open>A per-type sheet as the writer lays it out, and one of its rows, all cells texts.\<close>

definition edit_columns :: "string list" where
  "edit_columns = [''ObjectName'', ''FieldName'', ''Value'', ''Unit'']"

definition edit_row :: "string \<Rightarrow> string \<Rightarrow> string \<Rightarrow> row" where
  "edit_row n f v = (\<lambda>c. map_option Text (map_of (flat_record n f v) c))"

text \<open>The example edit: Width of Room101 becomes 12.0, in a sheet named Zone.\<close>

definition example_edit :: sheets where
  "example_edit =
     [(''ALL'', \<lparr>columns = ''ObjectType'' # edit_columns, rows = []\<rparr>),
      (''Zone'', \<lparr>columns = edit_columns, rows = [edit_row ''Room101'' ''Width'' ''12.0'']\<rparr>)]"

definition example_updated_idf :: idfobjects where
  "example_updated_idf =
     [(''VERSION'', [example_version]),
      (''ZONE'', [example_zone\<lparr>obj := [''Zone'', ''Room101'', ''12.0'', ''20.0'']\<rparr>])]"

definition example_stats :: stats where
  "example_stats =
     \<lparr>total_updates = 1, successful_updates = 1, failed_updates = 0, warnings = [], errors = [],
      updated_objects = [\<lparr>object_type = ''Zone'', object_name = ''Room101'',
                           field_name = ''Width'', old_value = ''10.5'', new_value = ''12.0''\<rparr>]\<rparr>"












text \<open>A row whose ObjectName cell holds the number 101, and a zone of that name.\<close>

definition example_numbered_zone :: idfobject where
  "example_numbered_zone = \<lparr>obj = [''Zone'', ''101'', ''10.5'', ''20.0''],
                             fieldnames = [''key'', ''Name'', ''Width'', ''Height'']\<rparr>"

definition example_numbered_df :: dataframe where
  "example_numbered_df =
     \<lparr>columns = edit_columns,
      rows = [(edit_row [] ''Width'' ''12.0'')(''ObjectName'' := Some (Number 101 ''101''))]\<rparr>"

text \<open>
  Two object types of the simulation program whose names agree in their first 31
  characters once the colons are removed, and two whose names are colons only.
\<close>

definition example_colliding :: "(string \<times> pydict list) list" where
  "example_colliding =
     [(''AIRTERMINAL:SINGLEDUCT:CONSTANTVOLUME:REHEAT'',
       [flat_record ''Reheat 1'' ''key'' ''AirTerminal:SingleDuct:ConstantVolume:Reheat'']),
      (''AIRTERMINAL:SINGLEDUCT:CONSTANTVOLUME:NOREHEAT'',
       [flat_record ''Diffuser 1'' ''key'' ''AirTerminal:SingleDuct:ConstantVolume:NoReheat''])]"

definition example_untitled :: "(string \<times> pydict list) list" where
  "example_untitled =
     [(''ZONE'', example_zone_records),
      ('':'', [flat_record ''N/A'' ''key'' '':'']),
      (''::'', [flat_record ''N/A'' ''key'' ''::''])]"

text \<open>
  An edit workbook in which two sheets miss required columns and one of them has no
  rows.
\<close>

definition example_invalid_zone_df :: dataframe where
  "example_invalid_zone_df =
     \<lparr>columns = [''ObjectName'', ''Value''], rows = [edit_row ''Room101'' ''Width'' ''12.0'']\<rparr>"

definition example_invalid_material_df :: dataframe where
  "example_invalid_material_df = \<lparr>columns = [''FieldName''], rows = []\<rparr>"

definition example_invalid_edit :: sheets where
  "example_invalid_edit =
     [(''ALL'', \<lparr>columns = ''ObjectType'' # edit_columns, rows = []\<rparr>),
      (''Zone'', example_invalid_zone_df),
      (''Material'', example_invalid_material_df)]"
section \<open>Extraction: field alignment and the nameless placeholder\<close>

lemma filter_enumerate_index:
  "filter (\<lambda>p. fst p < m) (enumerate 0 xs) = map (\<lambda>i. (i, xs ! i)) [0..<min (length xs) m]"
proof (induction xs rule: rev_induct)
  case Nil
  then show ?case by simp
next
  case (snoc x xs)
  show ?case
  proof (cases "length xs < m")
    case True
    then have "min (length (xs @ [x])) m = Suc (length xs)" by simp
    with snoc True show ?thesis
      by (simp add: enumerate_append_eq nth_append min_def)
  next
    case False
    then have "min (length (xs @ [x])) m = min (length xs) m" by simp
    with snoc False show ?thesis
      by (simp add: enumerate_append_eq nth_append min_def)
  qed
qed

lemma object_records_by_position:
  "object_records ob =
     map (\<lambda>i. [(''ObjectName'', if hasattr_Name ob then Name ob else ''N/A''),
               (''FieldName'', fieldnames ob ! i),
               (''Value'', obj ob ! i),
               (''Unit'', [])])
         [0..<min (length (obj ob)) (length (fieldnames ob))]"
  by (simp add: object_records_def filter_enumerate_index Let_def comp_def)

lemma set_AList_update_subset: "set (AList.update k v al) \<subseteq> insert (k, v) (set al)"
  by (induction al) auto

lemma fold_extract_for_type_entries:
  "(t, data) \<in> set (fold (extract_for_type idf) ks acc) \<Longrightarrow>
     (t, data) \<in> set acc \<or>
     (\<exists>objects. map_of idf t = Some objects \<and> data = concat (map object_records objects))"
proof (induction ks arbitrary: acc)
  case Nil
  then show ?case by simp
next
  case (Cons k ks)
  from Cons.prems have "(t, data) \<in> set (fold (extract_for_type idf) ks (extract_for_type idf k acc))"
    by simp
  from Cons.IH [OF this] show ?case
  proof
    assume "(t, data) \<in> set (extract_for_type idf k acc)"
    then show ?thesis
      using set_AList_update_subset [of k _ acc]
      by (auto simp: extract_for_type_def Let_def split: option.splits if_splits)
  next
    assume "\<exists>objects. map_of idf t = Some objects \<and> data = concat (map object_records objects)"
    then show ?thesis by simp
  qed
qed

lemma map_of_extract_for_type:
  "map_of (extract_for_type idf k acc) t =
     (if t = k \<and> (\<exists>objects. map_of idf t = Some objects \<and> concat (map object_records objects) \<noteq> [])
      then Some (concat (map object_records (the (map_of idf t))))
      else map_of acc t)"
  by (auto simp: extract_for_type_def Let_def update_conv' split: option.splits)

lemma map_of_fold_extract_for_type:
  "map_of (fold (extract_for_type idf) ks acc) t =
     (if t \<in> set ks \<and> (\<exists>objects. map_of idf t = Some objects \<and> concat (map object_records objects) \<noteq> [])
      then Some (concat (map object_records (the (map_of idf t))))
      else map_of acc t)"
proof (induction ks arbitrary: acc)
  case Nil
  then show ?case by simp
next
  case (Cons k ks)
  show ?case
    unfolding fold_Cons comp_apply Cons.IH map_of_extract_for_type
    by auto
qed

lemma extract_for_type_nonempty:
  assumes "(t, data) \<in> set (extract_for_type idf k acc)"
  shows "(t, data) \<in> set acc \<or> data \<noteq> []"
proof (cases "extract_for_type idf k acc = acc")
  case True
  with assms show ?thesis by simp
next
  case False
  then obtain object_data where "extract_for_type idf k acc = AList.update k object_data acc"
    and "object_data \<noteq> []"
    by (auto simp: extract_for_type_def Let_def split: option.splits if_splits)
  with assms set_AList_update_subset [of k object_data acc] show ?thesis
    by auto
qed

lemma fold_extract_for_type_nonempty:
  "(t, data) \<in> set (fold (extract_for_type idf) ks acc) \<Longrightarrow> (t, data) \<in> set acc \<or> data \<noteq> []"
proof (induction ks arbitrary: acc)
  case Nil
  then show ?case by simp
next
  case (Cons k ks)
  from Cons.prems have "(t, data) \<in> set (fold (extract_for_type idf) ks (extract_for_type idf k acc))"
    by simp
  from Cons.IH [OF this] extract_for_type_nonempty [of t data idf k acc] show ?case
    by blast
qed

lemma example_extract: "extract_idf_data (Inr example_idf) = Some example_extracted"
  by code_simp

text \<open>
  C5. Every record that extraction emits for an object type lies at a position \<open>i\<close>
  below both the number of values of its instance and the number of field names of the
  type; its FieldName is the field name at \<open>i\<close> and its Value the value at \<open>i\<close>. The
  data of a type are these records, instance by instance, position by position.
\<close>

theorem extract_idf_data_alignment:
  assumes "extract_idf_data (Inr idf) = Some all_sheets_data"
    and "(obj_type, data) \<in> set all_sheets_data"
  shows "\<exists>objects. map_of idf obj_type = Some objects \<and>
           data = concat (map (\<lambda>ob.
                    map (\<lambda>i. [(''ObjectName'', if hasattr_Name ob then Name ob else ''N/A''),
                              (''FieldName'', fieldnames ob ! i),
                              (''Value'', obj ob ! i),
                              (''Unit'', [])])
                        [0..<min (length (obj ob)) (length (fieldnames ob))]) objects)"
proof -
  from assms have "(obj_type, data) \<in> set (fold (extract_for_type idf) (map fst idf) [])"
    by (simp add: extract_idf_data_def)
  from fold_extract_for_type_entries [OF this]
  obtain objects where "map_of idf obj_type = Some objects"
    and "data = concat (map object_records objects)"
    by auto
  moreover have "object_records = (\<lambda>ob.
      map (\<lambda>i. [(''ObjectName'', if hasattr_Name ob then Name ob else ''N/A''),
                (''FieldName'', fieldnames ob ! i),
                (''Value'', obj ob ! i),
                (''Unit'', [])])
          [0..<min (length (obj ob)) (length (fieldnames ob))])"
    by (rule ext) (rule object_records_by_position)
  ultimately show ?thesis
    by simp
qed

theorem extract_idf_data_alignment_witness:
  "\<exists>objects. map_of example_idf ''ZONE'' = Some objects \<and>
     example_zone_records = concat (map (\<lambda>ob.
        map (\<lambda>i. [(''ObjectName'', if hasattr_Name ob then Name ob else ''N/A''),
                  (''FieldName'', fieldnames ob ! i),
                  (''Value'', obj ob ! i),
                  (''Unit'', [])])
            [0..<min (length (obj ob)) (length (fieldnames ob))]) objects)"
proof -
  have "(''ZONE'', example_zone_records) \<in> set example_extracted"
    by (simp add: example_extracted_def)
  from extract_idf_data_alignment [OF example_extract this] show ?thesis .
qed

lemma find_matching_Some:
  "find_matching obs key = Some i \<Longrightarrow>
     i < length obs \<and> hasattr_Name (obs ! i) \<and> Text (Name (obs ! i)) = key"
proof (induction obs arbitrary: i)
  case Nil
  then show ?case by simp
next
  case (Cons ob obs)
  show ?case
  proof (cases "hasattr_Name ob \<and> Text (Name ob) = key")
    case True
    with Cons.prems show ?thesis by auto
  next
    case False
    with Cons.prems obtain j where "find_matching obs key = Some j" and "i = Suc j"
      by auto
    with Cons.IH [of j] show ?thesis by simp
  qed
qed

text \<open>
  C10. Every record emitted for an instance that has no Name field carries the text
  \<open>N/A\<close> as its ObjectName and is part of the data extracted for the instance's
  type; and the update engine's search never selects such an instance, whatever the
  key of the group, a text or a number.
\<close>

theorem nameless_object_placeholder:
  assumes "map_of idf obj_type = Some objects"
    and "ob \<in> set objects"
    and "\<not> hasattr_Name ob"
    and "record \<in> set (object_records ob)"
  shows "map_of record ''ObjectName'' = Some ''N/A'' \<and>
         (\<exists>all_sheets_data data.
            extract_idf_data (Inr idf) = Some all_sheets_data \<and>
            map_of all_sheets_data obj_type = Some data \<and> record \<in> set data) \<and>
         (find_matching objects key = Some i \<longrightarrow> objects ! i \<noteq> ob)"
proof -
  from assms(3,4) have name: "map_of record ''ObjectName'' = Some ''N/A''"
    by (auto simp: object_records_by_position)
  let ?data = "concat (map object_records objects)"
  from assms(2,4) have mem: "record \<in> set ?data"
    by auto
  have nonempty: "?data \<noteq> []"
  proof
    assume "?data = []"
    with mem show False by simp
  qed
  from assms(1) have "obj_type \<in> set (map fst idf)"
    by (auto dest: map_of_SomeD intro: rev_image_eqI)
  with assms(1) nonempty
  have "map_of (fold (extract_for_type idf) (map fst idf) []) obj_type = Some ?data"
    by (simp add: map_of_fold_extract_for_type)
  with mem have emitted: "\<exists>all_sheets_data data.
            extract_idf_data (Inr idf) = Some all_sheets_data \<and>
            map_of all_sheets_data obj_type = Some data \<and> record \<in> set data"
    by (simp add: extract_idf_data_def)
  have "find_matching objects key = Some i \<longrightarrow> objects ! i \<noteq> ob"
    using find_matching_Some [of objects key i] assms(3) by auto
  with name emitted show ?thesis
    by blast
qed

theorem nameless_object_placeholder_witness:
  "map_of (flat_record ''N/A'' ''Version_Identifier'' ''22.1.0'') ''ObjectName'' = Some ''N/A'' \<and>
   (\<exists>all_sheets_data data.
      extract_idf_data (Inr example_idf) = Some all_sheets_data \<and>
      map_of all_sheets_data ''VERSION'' = Some data \<and>
      flat_record ''N/A'' ''Version_Identifier'' ''22.1.0'' \<in> set data)"
proof -
  have h1: "map_of example_idf ''VERSION'' = Some [example_version]"
    by (simp add: example_idf_def)
  have h2: "example_version \<in> set [example_version]"
    by simp
  have h3: "\<not> hasattr_Name example_version"
    by (simp add: hasattr_Name_def example_version_def)
  have h4: "flat_record ''N/A'' ''Version_Identifier'' ''22.1.0''
              \<in> set (object_records example_version)"
    by code_simp
  from nameless_object_placeholder [OF h1 h2 h3 h4] show ?thesis
    by blast
qed

section \<open>The writer\<close>

lemma ordered_keys_known: "set ks \<subseteq> set seen \<Longrightarrow> ordered_keys seen ks = seen"
  by (induction ks arbitrary: seen) auto

lemma ordered_keys_append: "ordered_keys seen (ks @ ls) = ordered_keys (ordered_keys seen ks) ls"
  by (induction ks arbitrary: seen) auto

lemma ordered_keys_same_keys:
  assumes "data \<noteq> []" and "\<forall>d \<in> set data. map fst d = ks" and "ordered_keys [] ks = ks"
  shows "ordered_keys [] (concat (map (map fst) data)) = ks"
proof -
  from assms(1) obtain d ds where data: "data = d # ds"
    by (cases data) auto
  with assms(2) have d: "map fst d = ks" and "set (concat (map (map fst) ds)) \<subseteq> set ks"
    by auto
  then show ?thesis
    by (simp add: data ordered_keys_append assms(3) ordered_keys_known)
qed

lemma extracted_records_shape:
  assumes "extract_idf_data (Inr idf) = Some sheets_data"
    and "(obj_type, data) \<in> set sheets_data"
  shows "data \<noteq> [] \<and> (\<forall>record \<in> set data. \<exists>n f v. record = flat_record n f v)"
proof -
  from assms have mem: "(obj_type, data) \<in> set (fold (extract_for_type idf) (map fst idf) [])"
    by (simp add: extract_idf_data_def)
  from fold_extract_for_type_entries [OF mem]
  obtain objects where "data = concat (map object_records objects)"
    by auto
  then have "\<forall>record \<in> set data. \<exists>n f v. record = flat_record n f v"
    by (auto simp: object_records_by_position flat_record_def)
  moreover from fold_extract_for_type_nonempty [OF mem] have "data \<noteq> []"
    by simp
  ultimately show ?thesis by simp
qed

lemma columns_of_flat_records:
  assumes "data \<noteq> []" and "\<forall>record \<in> set data. \<exists>n f v. record = flat_record n f v"
  shows "columns (DataFrame data) = [''ObjectName'', ''FieldName'', ''Value'', ''Unit'']"
proof -
  from assms(2) have "\<forall>d \<in> set data. map fst d = [''ObjectName'', ''FieldName'', ''Value'', ''Unit'']"
    by (auto simp: flat_record_def)
  from ordered_keys_same_keys [OF assms(1) this] show ?thesis
    by (simp add: DataFrame_def)
qed

lemma unit_of_flat_records:
  assumes "\<forall>record \<in> set data. \<exists>n f v. record = flat_record n f v"
    and "r \<in> set (rows (DataFrame data))"
  shows "r ''Unit'' = Some (Text [])"
  using assms by (auto simp: DataFrame_def flat_record_def)

lemma all_data_of_flat_records:
  assumes "\<forall>p \<in> set sheets_data. snd p \<noteq> [] \<and> (\<forall>record \<in> set (snd p). \<exists>n f v. record = flat_record n f v)"
  shows "(sheets_data \<noteq> [] \<longrightarrow> all_data_of sheets_data \<noteq> []) \<and>
         (\<forall>d \<in> set (all_data_of sheets_data).
             map fst d = [''ObjectType'', ''ObjectName'', ''FieldName'', ''Value'', ''Unit''])"
  using assms
proof (induction sheets_data)
  case Nil
  then show ?case by (simp add: all_data_of_def)
next
  case (Cons p ps)
  obtain t data where p: "p = (t, data)" by (cases p)
  from Cons.prems p have "data \<noteq> []"
    and recs: "\<forall>record \<in> set data. \<exists>n f v. record = flat_record n f v"
    by auto
  have merged: "map fst (dict_merge [(''ObjectType'', t)] record) =
      [''ObjectType'', ''ObjectName'', ''FieldName'', ''Value'', ''Unit'']"
    if "record \<in> set data" for "record"
  proof -
    from recs that obtain n f v where "record = flat_record n f v" by blast
    then show ?thesis by (simp add: dict_merge_def flat_record_def)
  qed
  from Cons.prems have "\<forall>p \<in> set ps. snd p \<noteq> [] \<and> (\<forall>record \<in> set (snd p). \<exists>n f v. record = flat_record n f v)"
    by simp
  from Cons.IH [OF this] have IH: "\<forall>d \<in> set (all_data_of ps).
             map fst d = [''ObjectType'', ''ObjectName'', ''FieldName'', ''Value'', ''Unit'']"
    by simp
  have split: "all_data_of (p # ps) =
      map (\<lambda>record. dict_merge [(''ObjectType'', t)] record) data @ all_data_of ps"
    by (simp add: all_data_of_def p)
  from \<open>data \<noteq> []\<close> have "all_data_of (p # ps) \<noteq> []"
    by (simp add: split)
  moreover have "\<forall>d \<in> set (all_data_of (p # ps)).
             map fst d = [''ObjectType'', ''ObjectName'', ''FieldName'', ''Value'', ''Unit'']"
    using IH merged by (auto simp: split)
  ultimately show ?case by simp
qed

text \<open>
  C6 (as the code has it). For the data that extraction yields, the writer's first
  sheet is ALL, with exactly the columns ObjectType, ObjectName, FieldName, Value and
  Unit: the record of each row is copied whole behind its ObjectType. The per-type
  sheets follow, type by type up to the first type whose sanitized name is empty; the
  table of every type has exactly the columns ObjectName, FieldName, Value, Unit, and
  the Unit of every row is the empty text.
\<close>

theorem written_sheet_columns:
  assumes "extract_idf_data (Inr idf) = Some sheets_data"
    and "sheets_data \<noteq> []"
  shows "\<exists>all_df.
           written (write_data_to_excel (Some sheets_data) path include_individual_sheets) =
             (''ALL'', all_df) #
             (if include_individual_sheets
              then map (\<lambda>(obj_type, data). (sheet_name_of obj_type, DataFrame data))
                       (takeWhile (\<lambda>(obj_type, data). sheet_name_of obj_type \<noteq> []) sheets_data)
              else []) \<and>
           columns all_df = [''ObjectType'', ''ObjectName'', ''FieldName'', ''Value'', ''Unit''] \<and>
           (\<forall>(obj_type, data) \<in> set sheets_data.
              columns (DataFrame data) = [''ObjectName'', ''FieldName'', ''Value'', ''Unit''] \<and>
              (\<forall>r \<in> set (rows (DataFrame data)). r ''Unit'' = Some (Text [])))"
proof -
  have shape: "\<forall>p \<in> set sheets_data.
      snd p \<noteq> [] \<and> (\<forall>record \<in> set (snd p). \<exists>n f v. record = flat_record n f v)"
    using extracted_records_shape [OF assms(1)] by auto
  from all_data_of_flat_records [OF shape] assms(2)
  have nonempty: "all_data_of sheets_data \<noteq> []"
    and keys: "\<forall>d \<in> set (all_data_of sheets_data).
             map fst d = [''ObjectType'', ''ObjectName'', ''FieldName'', ''Value'', ''Unit'']"
    by auto
  have "ordered_keys [] [''ObjectType'', ''ObjectName'', ''FieldName'', ''Value'', ''Unit''] =
          [''ObjectType'', ''ObjectName'', ''FieldName'', ''Value'', ''Unit'']"
    by simp
  from ordered_keys_same_keys [OF nonempty keys this]
  have all_columns: "columns (DataFrame (all_data_of sheets_data)) =
      [''ObjectType'', ''ObjectName'', ''FieldName'', ''Value'', ''Unit'']"
    by (simp add: DataFrame_def)
  have written: "written (write_data_to_excel (Some sheets_data) path include_individual_sheets) =
             (''ALL'', DataFrame (all_data_of sheets_data)) #
             (if include_individual_sheets
              then map (\<lambda>(obj_type, data). (sheet_name_of obj_type, DataFrame data))
                       (takeWhile (\<lambda>(obj_type, data). sheet_name_of obj_type \<noteq> []) sheets_data)
              else [])"
    using assms(2) nonempty by (simp add: write_data_to_excel_def Let_def)
  have individual: "\<forall>(obj_type, data) \<in> set sheets_data.
              columns (DataFrame data) = [''ObjectName'', ''FieldName'', ''Value'', ''Unit''] \<and>
              (\<forall>r \<in> set (rows (DataFrame data)). r ''Unit'' = Some (Text []))"
    using shape columns_of_flat_records unit_of_flat_records by fastforce
  from written all_columns individual show ?thesis
    by blast
qed

theorem written_sheet_columns_witness:
  "\<exists>all_df.
     written (write_data_to_excel (Some example_extracted) ''out.xlsx'' True) =
       (''ALL'', all_df) #
       (if True
        then map (\<lambda>(obj_type, data). (sheet_name_of obj_type, DataFrame data))
                 (takeWhile (\<lambda>(obj_type, data). sheet_name_of obj_type \<noteq> []) example_extracted)
        else []) \<and>
     columns all_df = [''ObjectType'', ''ObjectName'', ''FieldName'', ''Value'', ''Unit''] \<and>
     (\<forall>(obj_type, data) \<in> set example_extracted.
        columns (DataFrame data) = [''ObjectName'', ''FieldName'', ''Value'', ''Unit''] \<and>
        (\<forall>r \<in> set (rows (DataFrame data)). r ''Unit'' = Some (Text [])))"
proof -
  have "example_extracted \<noteq> []"
    by (simp add: example_extracted_def)
  from written_sheet_columns [OF example_extract this] show ?thesis .
qed

text \<open>
  The claim as stated fails: the ALL sheet written for the example model has five
  columns, the fifth being Unit.
\<close>

theorem all_sheet_columns_counterexample:
  "map (\<lambda>p. (fst p, columns (snd p)))
     (written (write_data_to_excel (extract_idf_data (Inr example_idf)) ''out.xlsx'' True)) =
     [(''ALL'', [''ObjectType'', ''ObjectName'', ''FieldName'', ''Value'', ''Unit'']),
      (''VERSION'', [''ObjectName'', ''FieldName'', ''Value'', ''Unit'']),
      (''ZONE'', [''ObjectName'', ''FieldName'', ''Value'', ''Unit''])] \<and>
   [''ObjectType'', ''ObjectName'', ''FieldName'', ''Value'', ''Unit''] \<noteq>
   [''ObjectType'', ''ObjectName'', ''FieldName'', ''Value'']"
  by code_simp

text \<open>
  C7 (as the code has it). The writer does not compare sheet names. When the sanitized
  names of two object types coincide and no sanitized name is empty, both tables are
  handed to the container under that one name, and what the writer prints is the
  record counts and the success line that counts one sheet per type: no collision is
  detected or reported.
\<close>

theorem colliding_sheet_names_written:
  assumes "sheets_data \<noteq> []"
    and "(type1, data1) \<in> set sheets_data"
    and "(type2, data2) \<in> set sheets_data"
    and "sheet_name_of type1 = sheet_name_of type2"
    and "\<forall>(obj_type, data) \<in> set sheets_data. sheet_name_of obj_type \<noteq> []"
  shows "(sheet_name_of type1, DataFrame data1)
           \<in> set (written (write_data_to_excel (Some sheets_data) path True)) \<and>
         (sheet_name_of type1, DataFrame data2)
           \<in> set (written (write_data_to_excel (Some sheets_data) path True)) \<and>
         printed (write_data_to_excel (Some sheets_data) path True) =
           (if all_data_of sheets_data \<noteq> []
            then [Records ''ALL'' (length (all_data_of sheets_data))] else []) @
           map (\<lambda>(obj_type, data). Records obj_type (length data)) sheets_data @
           [Success path (1 + length sheets_data)]"
proof -
  from assms(5)
  have accepted: "takeWhile (\<lambda>(obj_type, data). sheet_name_of obj_type \<noteq> []) sheets_data = sheets_data"
    by (simp add: takeWhile_eq_all_conv)
  have "written (write_data_to_excel (Some sheets_data) path True) =
          (if all_data_of sheets_data \<noteq> []
           then [(''ALL'', DataFrame (all_data_of sheets_data))] else []) @
          map (\<lambda>(obj_type, data). (sheet_name_of obj_type, DataFrame data))
              (takeWhile (\<lambda>(obj_type, data). sheet_name_of obj_type \<noteq> []) sheets_data)"
    using assms(1) by (simp add: write_data_to_excel_def Let_def del: takeWhile_eq_all_conv)
  then have sub: "set (map (\<lambda>(obj_type, data). (sheet_name_of obj_type, DataFrame data)) sheets_data)
          \<subseteq> set (written (write_data_to_excel (Some sheets_data) path True))"
    unfolding accepted by simp
  from assms(2) have "(sheet_name_of type1, DataFrame data1)
      \<in> set (map (\<lambda>(obj_type, data). (sheet_name_of obj_type, DataFrame data)) sheets_data)"
    by (auto intro: rev_image_eqI)
  moreover from assms(3,4) have "(sheet_name_of type1, DataFrame data2)
      \<in> set (map (\<lambda>(obj_type, data). (sheet_name_of obj_type, DataFrame data)) sheets_data)"
    by (auto intro: rev_image_eqI)
  moreover have "printed (write_data_to_excel (Some sheets_data) path True) =
           (if all_data_of sheets_data \<noteq> []
            then [Records ''ALL'' (length (all_data_of sheets_data))] else []) @
           map (\<lambda>(obj_type, data). Records obj_type (length data))
               (takeWhile (\<lambda>(obj_type, data). sheet_name_of obj_type \<noteq> []) sheets_data) @
           [if takeWhile (\<lambda>(obj_type, data). sheet_name_of obj_type \<noteq> []) sheets_data = sheets_data
            then Success path (1 + length sheets_data) else Write_error]"
    using assms(1) by (simp add: write_data_to_excel_def Let_def del: takeWhile_eq_all_conv)
  then have "printed (write_data_to_excel (Some sheets_data) path True) =
           (if all_data_of sheets_data \<noteq> []
            then [Records ''ALL'' (length (all_data_of sheets_data))] else []) @
           map (\<lambda>(obj_type, data). Records obj_type (length data)) sheets_data @
           [Success path (1 + length sheets_data)]"
    unfolding accepted by simp
  ultimately show ?thesis
    using sub by blast
qed

theorem colliding_sheet_names_written_witness:
  "(sheet_name_of ''AIRTERMINAL:SINGLEDUCT:CONSTANTVOLUME:REHEAT'',
    DataFrame [flat_record ''Reheat 1'' ''key'' ''AirTerminal:SingleDuct:ConstantVolume:Reheat''])
     \<in> set (written (write_data_to_excel (Some example_colliding) ''out.xlsx'' True)) \<and>
   (sheet_name_of ''AIRTERMINAL:SINGLEDUCT:CONSTANTVOLUME:REHEAT'',
    DataFrame [flat_record ''Diffuser 1'' ''key'' ''AirTerminal:SingleDuct:ConstantVolume:NoReheat''])
     \<in> set (written (write_data_to_excel (Some example_colliding) ''out.xlsx'' True)) \<and>
   printed (write_data_to_excel (Some example_colliding) ''out.xlsx'' True) =
     (if all_data_of example_colliding \<noteq> []
      then [Records ''ALL'' (length (all_data_of example_colliding))] else []) @
     map (\<lambda>(obj_type, data). Records obj_type (length data)) example_colliding @
     [Success ''out.xlsx'' (1 + length example_colliding)]"
proof -
  have h1: "example_colliding \<noteq> []"
    by (simp add: example_colliding_def)
  have h2: "(''AIRTERMINAL:SINGLEDUCT:CONSTANTVOLUME:REHEAT'',
             [flat_record ''Reheat 1'' ''key'' ''AirTerminal:SingleDuct:ConstantVolume:Reheat''])
              \<in> set example_colliding"
    by (simp add: example_colliding_def)
  have h3: "(''AIRTERMINAL:SINGLEDUCT:CONSTANTVOLUME:NOREHEAT'',
             [flat_record ''Diffuser 1'' ''key'' ''AirTerminal:SingleDuct:ConstantVolume:NoReheat''])
              \<in> set example_colliding"
    by (simp add: example_colliding_def)
  have h4: "sheet_name_of ''AIRTERMINAL:SINGLEDUCT:CONSTANTVOLUME:REHEAT'' =
            sheet_name_of ''AIRTERMINAL:SINGLEDUCT:CONSTANTVOLUME:NOREHEAT''"
    by code_simp
  have h5: "\<forall>(obj_type, data) \<in> set example_colliding. sheet_name_of obj_type \<noteq> []"
    by code_simp
  from colliding_sheet_names_written [OF h1 h2 h3 h4 h5, of "''out.xlsx''"] show ?thesis .
qed

text \<open>
  The claim as stated fails: for two object types whose sanitized names agree in
  their first 31 characters, the writer hands over two sheets of the same name and
  prints a success line for three worksheets.
\<close>

theorem sheet_name_collision_counterexample:
  "map fst (written (write_data_to_excel (Some example_colliding) ''out.xlsx'' True)) =
     [''ALL'', ''AIRTERMINALSINGLEDUCTCONSTANTVO'', ''AIRTERMINALSINGLEDUCTCONSTANTVO''] \<and>
   printed (write_data_to_excel (Some example_colliding) ''out.xlsx'' True) =
     [Records ''ALL'' 2,
      Records ''AIRTERMINAL:SINGLEDUCT:CONSTANTVOLUME:REHEAT'' 1,
      Records ''AIRTERMINAL:SINGLEDUCT:CONSTANTVOLUME:NOREHEAT'' 1,
      Success ''out.xlsx'' 3]"
  by code_simp

text \<open>
  A type whose sanitized name is empty: the tables before it are handed over, and the
  writer prints its error line in place of the success line.
\<close>

lemma untitled_sheet_error:
  "map fst (written (write_data_to_excel (Some example_untitled) ''out.xlsx'' True)) =
     [''ALL'', ''ZONE''] \<and>
   printed (write_data_to_excel (Some example_untitled) ''out.xlsx'' True) =
     [Records ''ALL'' 6, Records ''ZONE'' 4, Write_error]"
  by code_simp
section \<open>Validation of the edit workbook\<close>

lemma split_at_last:
  assumes "xs @ c # ys = xs' @ c # ys'" and "c \<notin> set ys" and "c \<notin> set ys'"
  shows "xs = xs' \<and> ys = ys'"
  using assms
proof (induction xs arbitrary: xs')
  case Nil
  then show ?case by (cases xs') auto
next
  case (Cons x xs)
  show ?case
  proof (cases xs')
    case Nil
    with Cons.prems show ?thesis by auto
  next
    case (Cons x' xs'')
    with Cons.prems Cons.IH [of xs''] show ?thesis by auto
  qed
qed

lemma join_comma_Cons:
  "join_comma (s # ss) = s @ concat (map (\<lambda>t. '', '' @ t) ss)"
  by (induction ss arbitrary: s) simp_all

lemma repr_list_Cons:
  "repr_list (c # cs) =
     ''['' @ [CHR 0x27] @ c @ [CHR 0x27]
     @ concat (map (\<lambda>s. '', '' @ [CHR 0x27] @ s @ [CHR 0x27]) cs) @ '']''"
  by (simp add: repr_list_def join_comma_Cons quote_def comp_def)

lemma missing_text_split:
  "missing_text name c cs =
     (''Sheet '' @ [CHR 0x27]) @ (name @ [CHR 0x27] @ '' missing columns'') @
       CHR '':'' # ('' ['' @ [CHR 0x27] @ c @ [CHR 0x27]
                    @ concat (map (\<lambda>s. '', '' @ [CHR 0x27] @ s @ [CHR 0x27]) cs) @ '']'')"
  unfolding missing_text_def by simp

lemma colon_not_in_columns:
  assumes "set (c # cs) \<subseteq> set required_columns"
  shows "CHR '':'' \<notin> set ('' ['' @ [CHR 0x27] @ c @ [CHR 0x27]
                    @ concat (map (\<lambda>s. '', '' @ [CHR 0x27] @ s @ [CHR 0x27]) cs) @ '']'')"
proof -
  have "CHR '':'' \<notin> set s" if "s \<in> set required_columns" for s
    using that by (auto simp: required_columns_def)
  with assms have "CHR '':'' \<notin> set c" and "\<forall>s \<in> set cs. CHR '':'' \<notin> set s"
    by auto
  then show ?thesis
    by auto
qed

lemma missing_text_inject:
  assumes "missing_text name1 c cs = missing_text name2 d ds"
    and "set (c # cs) \<subseteq> set required_columns" and "set (d # ds) \<subseteq> set required_columns"
  shows "name1 = name2"
proof -
  let ?a = "[CHR 0x27] @ '' missing columns''"
  let ?t1 = "'' ['' @ [CHR 0x27] @ c @ [CHR 0x27]
               @ concat (map (\<lambda>s. '', '' @ [CHR 0x27] @ s @ [CHR 0x27]) cs) @ '']''"
  let ?t2 = "'' ['' @ [CHR 0x27] @ d @ [CHR 0x27]
               @ concat (map (\<lambda>s. '', '' @ [CHR 0x27] @ s @ [CHR 0x27]) ds) @ '']''"
  from assms(1) have eq: "(name1 @ ?a) @ CHR '':'' # ?t1 = (name2 @ ?a) @ CHR '':'' # ?t2"
    unfolding missing_text_split by (simp only: same_append_eq)
  note n1 = colon_not_in_columns [OF assms(2)]
  note n2 = colon_not_in_columns [OF assms(3)]
  from split_at_last [OF eq n1 n2] have "name1 @ ?a = name2 @ ?a"
    by (rule conjunct1)
  then show ?thesis
    by (simp only: append_same_eq)
qed

text \<open>The messages of one sheet, stated on the sheet itself.\<close>

lemma sheet_messages_of_entry:
  assumes "distinct (map fst excel_data)" and "p \<in> set excel_data"
  shows "sheet_messages excel_data (fst p) =
           violation_texts p"
proof -
  from assms have "map_of excel_data (fst p) = Some (snd p)"
    by (cases p) simp
  then show ?thesis
    by (cases "missing_columns (snd p)")
       (simp_all add: sheet_messages_def repr_list_Cons missing_text_def empty_text_def
          violation_texts_def empty_df_def quote_def)
qed

lemma object_sheet_messages:
  assumes "distinct (map fst excel_data)"
  shows "concat (map (sheet_messages excel_data)
                   (filter (\<lambda>name. name \<noteq> ''ALL'') (map fst excel_data))) =
         concat (map violation_texts (filter (\<lambda>p. fst p \<noteq> ''ALL'') excel_data))"
proof -
  have "map (sheet_messages excel_data) (filter (\<lambda>name. name \<noteq> ''ALL'') (map fst excel_data)) =
        map (\<lambda>p. sheet_messages excel_data (fst p)) (filter (\<lambda>p. fst p \<noteq> ''ALL'') excel_data)"
    by (simp add: filter_map comp_def)
  also have "\<dots> = map violation_texts (filter (\<lambda>p. fst p \<noteq> ''ALL'') excel_data)"
    using sheet_messages_of_entry [OF assms] by (intro map_cong) auto
  finally show ?thesis
    by simp
qed

lemma violation_texts_empty_iff:
  "violation_texts p = [] \<longleftrightarrow>
     missing_columns (snd p) = [] \<and> columns (snd p) \<noteq> [] \<and> rows (snd p) \<noteq> []"
  by (cases "missing_columns (snd p)") (simp_all add: violation_texts_def)

lemma no_messages_iff:
  "concat (map violation_texts (filter (\<lambda>p. fst p \<noteq> ''ALL'') excel_data)) = [] \<longleftrightarrow>
     (\<forall>p \<in> set excel_data. fst p \<noteq> ''ALL'' \<longrightarrow>
        missing_columns (snd p) = [] \<and> columns (snd p) \<noteq> [] \<and> rows (snd p) \<noteq> [])"
  by (auto simp: violation_texts_empty_iff)

lemma validate_excel_for_update_readable:
  assumes "distinct (map fst excel_data)"
  shows "validate_excel_for_update True path (Inr excel_data) =
           (if \<forall>p \<in> set excel_data. fst p = ''ALL''
              then (False, [''No object-specific sheets found (only '' @ [CHR 0x27] @ ''ALL''
                            @ [CHR 0x27] @ '' sheet present)''])
            else if \<forall>p \<in> set excel_data. fst p \<noteq> ''ALL'' \<longrightarrow>
                      missing_columns (snd p) = [] \<and> columns (snd p) \<noteq> [] \<and> rows (snd p) \<noteq> []
              then (True, [''Excel file format is valid for IDF updates''])
            else (False,
                  concat (map violation_texts (filter (\<lambda>p. fst p \<noteq> ''ALL'') excel_data))))"
proof -
  let ?names = "filter (\<lambda>name. name \<noteq> ''ALL'') (map fst excel_data)"
  let ?vs = "concat (map violation_texts (filter (\<lambda>p. fst p \<noteq> ''ALL'') excel_data))"
  have empty: "?names = [] \<longleftrightarrow> (\<forall>p \<in> set excel_data. fst p = ''ALL'')"
    by (auto simp: filter_empty_conv)
  have "validate_excel_for_update True path (Inr excel_data) =
          (if ?names = []
             then (False, [''No object-specific sheets found (only '' @ [CHR 0x27] @ ''ALL''
                            @ [CHR 0x27] @ '' sheet present)''])
           else if concat (map (sheet_messages excel_data) ?names) \<noteq> []
             then (False, concat (map (sheet_messages excel_data) ?names))
           else (True, [''Excel file format is valid for IDF updates'']))"
    by (simp add: validate_excel_for_update_def Let_def quote_def)
  also have "\<dots> = (if \<forall>p \<in> set excel_data. fst p = ''ALL''
              then (False, [''No object-specific sheets found (only '' @ [CHR 0x27] @ ''ALL''
                            @ [CHR 0x27] @ '' sheet present)''])
            else if ?vs \<noteq> [] then (False, ?vs)
            else (True, [''Excel file format is valid for IDF updates'']))"
    by (simp only: object_sheet_messages [OF assms] empty)
  also have "\<dots> = (if \<forall>p \<in> set excel_data. fst p = ''ALL''
              then (False, [''No object-specific sheets found (only '' @ [CHR 0x27] @ ''ALL''
                            @ [CHR 0x27] @ '' sheet present)''])
            else if \<forall>p \<in> set excel_data. fst p \<noteq> ''ALL'' \<longrightarrow>
                      missing_columns (snd p) = [] \<and> columns (snd p) \<noteq> [] \<and> rows (snd p) \<noteq> []
              then (True, [''Excel file format is valid for IDF updates''])
            else (False, ?vs))"
    unfolding no_messages_iff [symmetric] by simp
  finally show ?thesis .
qed

text \<open>
  C8. For a readable workbook (its sheet names distinct), validation answers invalid
  with the single message \<open>No object-specific sheets found (only 'ALL' sheet present)\<close>
  when no sheet other than ALL exists. Otherwise it answers valid, with the message
  \<open>Excel file format is valid for IDF updates\<close>, exactly when every sheet other than
  ALL has the three required columns, a column and a row; and when not, it answers
  invalid with the messages of all the sheets other than ALL, in sheet order, every
  sheet being examined whatever the earlier ones gave: for a sheet that misses required
  columns the message \<open>Sheet 'name' missing columns: ['c', ...]\<close> listing the missing
  ones in the order ObjectName, FieldName, Value, then for a sheet without columns or
  without rows the message \<open>Sheet 'name' is empty\<close>. The missing-columns messages of
  two sheets of different names are different texts. A path that does not exist gives
  invalid with \<open>File not found:\<close> and the path, a workbook that cannot be read gives
  invalid with \<open>Error reading Excel file:\<close> and the text of the exception.
\<close>

theorem validation_collects_all_violations:
  assumes "distinct (map fst excel_data)"
  shows "validate_excel_for_update True path (Inr excel_data) =
           (if \<forall>p \<in> set excel_data. fst p = ''ALL''
              then (False, [''No object-specific sheets found (only '' @ [CHR 0x27] @ ''ALL''
                            @ [CHR 0x27] @ '' sheet present)''])
            else if \<forall>p \<in> set excel_data. fst p \<noteq> ''ALL'' \<longrightarrow>
                      filter (\<lambda>col. col \<notin> set (columns (snd p)))
                             [''ObjectName'', ''FieldName'', ''Value''] = [] \<and>
                      columns (snd p) \<noteq> [] \<and> rows (snd p) \<noteq> []
              then (True, [''Excel file format is valid for IDF updates''])
            else (False,
                  concat (map (\<lambda>p.
                     (case filter (\<lambda>col. col \<notin> set (columns (snd p)))
                                  [''ObjectName'', ''FieldName'', ''Value''] of
                        [] \<Rightarrow> []
                      | c # cs \<Rightarrow>
                          [''Sheet '' @ [CHR 0x27] @ fst p @ [CHR 0x27] @ '' missing columns: [''
                           @ [CHR 0x27] @ c @ [CHR 0x27]
                           @ concat (map (\<lambda>s. '', '' @ [CHR 0x27] @ s @ [CHR 0x27]) cs) @ '']'']) @
                     (if columns (snd p) = [] \<or> rows (snd p) = []
                      then [''Sheet '' @ [CHR 0x27] @ fst p @ [CHR 0x27] @ '' is empty'']
                      else []))
                   (filter (\<lambda>p. fst p \<noteq> ''ALL'') excel_data)))) \<and>
         (\<forall>p \<in> set excel_data. \<forall>q \<in> set excel_data. \<forall>c cs d ds.
            fst p \<noteq> fst q \<and>
            filter (\<lambda>col. col \<notin> set (columns (snd p)))
                   [''ObjectName'', ''FieldName'', ''Value''] = c # cs \<and>
            filter (\<lambda>col. col \<notin> set (columns (snd q)))
                   [''ObjectName'', ''FieldName'', ''Value''] = d # ds
            \<longrightarrow> ''Sheet '' @ [CHR 0x27] @ fst p @ [CHR 0x27] @ '' missing columns: [''
                  @ [CHR 0x27] @ c @ [CHR 0x27]
                  @ concat (map (\<lambda>s. '', '' @ [CHR 0x27] @ s @ [CHR 0x27]) cs) @ '']''
                \<noteq> ''Sheet '' @ [CHR 0x27] @ fst q @ [CHR 0x27] @ '' missing columns: [''
                  @ [CHR 0x27] @ d @ [CHR 0x27]
                  @ concat (map (\<lambda>s. '', '' @ [CHR 0x27] @ s @ [CHR 0x27]) ds) @ '']'') \<and>
         validate_excel_for_update False path loaded = (False, [''File not found: '' @ path]) \<and>
         validate_excel_for_update True path (Inl e) = (False, [''Error reading Excel file: '' @ e])"
proof -
  note readable = validate_excel_for_update_readable [OF assms, of path]
  have different: "\<forall>p \<in> set excel_data. \<forall>q \<in> set excel_data. \<forall>c cs d ds.
            fst p \<noteq> fst q \<and> missing_columns (snd p) = c # cs \<and> missing_columns (snd q) = d # ds
            \<longrightarrow> missing_text (fst p) c cs \<noteq> missing_text (fst q) d ds"
  proof (intro ballI allI impI)
    fix p q :: "string \<times> dataframe" and c cs d ds
    assume h: "fst p \<noteq> fst q \<and> missing_columns (snd p) = c # cs \<and> missing_columns (snd q) = d # ds"
    have "set (missing_columns df) \<subseteq> set required_columns" for df
      by (auto simp: missing_columns_def)
    from this [of "snd p"] this [of "snd q"] h
    have "set (c # cs) \<subseteq> set required_columns" and "set (d # ds) \<subseteq> set required_columns"
      by simp_all
    with missing_text_inject [of "fst p" c cs "fst q" d ds] h
    show "missing_text (fst p) c cs \<noteq> missing_text (fst q) d ds"
      by blast
  qed
  have closed: "validate_excel_for_update False path loaded = (False, [''File not found: '' @ path])"
    "validate_excel_for_update True path (Inl e) = (False, [''Error reading Excel file: '' @ e])"
    by (simp_all add: validate_excel_for_update_def)
  from readable different closed show ?thesis
    unfolding violation_texts_def missing_columns_def required_columns_def missing_text_def
      empty_text_def
    by (intro conjI)
qed

theorem validation_collects_all_violations_witness:
  "validate_excel_for_update True ''edit.xlsx'' (Inr example_invalid_edit) =
     (False,
      [''Sheet '' @ [CHR 0x27] @ ''Zone'' @ [CHR 0x27] @ '' missing columns: [''
         @ [CHR 0x27] @ ''FieldName'' @ [CHR 0x27] @ '']'',
       ''Sheet '' @ [CHR 0x27] @ ''Material'' @ [CHR 0x27] @ '' missing columns: [''
         @ [CHR 0x27] @ ''ObjectName'' @ [CHR 0x27] @ '', '' @ [CHR 0x27] @ ''Value'' @ [CHR 0x27]
         @ '']'',
       ''Sheet '' @ [CHR 0x27] @ ''Material'' @ [CHR 0x27] @ '' is empty''])"
proof -
  have h: "distinct (map fst example_invalid_edit)"
    by (simp add: example_invalid_edit_def)
  from validation_collects_all_violations [OF h, of "''edit.xlsx''" "Inr []" "''unreadable''"]
  have "validate_excel_for_update True ''edit.xlsx'' (Inr example_invalid_edit) =
           (if \<forall>p \<in> set example_invalid_edit. fst p = ''ALL''
              then (False, [''No object-specific sheets found (only '' @ [CHR 0x27] @ ''ALL''
                            @ [CHR 0x27] @ '' sheet present)''])
            else if \<forall>p \<in> set example_invalid_edit. fst p \<noteq> ''ALL'' \<longrightarrow>
                      filter (\<lambda>col. col \<notin> set (columns (snd p)))
                             [''ObjectName'', ''FieldName'', ''Value''] = [] \<and>
                      columns (snd p) \<noteq> [] \<and> rows (snd p) \<noteq> []
              then (True, [''Excel file format is valid for IDF updates''])
            else (False,
                  concat (map (\<lambda>p.
                     (case filter (\<lambda>col. col \<notin> set (columns (snd p)))
                                  [''ObjectName'', ''FieldName'', ''Value''] of
                        [] \<Rightarrow> []
                      | c # cs \<Rightarrow>
                          [''Sheet '' @ [CHR 0x27] @ fst p @ [CHR 0x27] @ '' missing columns: [''
                           @ [CHR 0x27] @ c @ [CHR 0x27]
                           @ concat (map (\<lambda>s. '', '' @ [CHR 0x27] @ s @ [CHR 0x27]) cs) @ '']'']) @
                     (if columns (snd p) = [] \<or> rows (snd p) = []
                      then [''Sheet '' @ [CHR 0x27] @ fst p @ [CHR 0x27] @ '' is empty'']
                      else []))
                   (filter (\<lambda>p. fst p \<noteq> ''ALL'') example_invalid_edit))))"
    by (rule conjunct1)
  also have "\<dots> = (False,
      [''Sheet '' @ [CHR 0x27] @ ''Zone'' @ [CHR 0x27] @ '' missing columns: [''
         @ [CHR 0x27] @ ''FieldName'' @ [CHR 0x27] @ '']'',
       ''Sheet '' @ [CHR 0x27] @ ''Material'' @ [CHR 0x27] @ '' missing columns: [''
         @ [CHR 0x27] @ ''ObjectName'' @ [CHR 0x27] @ '', '' @ [CHR 0x27] @ ''Value'' @ [CHR 0x27]
         @ '']'',
       ''Sheet '' @ [CHR 0x27] @ ''Material'' @ [CHR 0x27] @ '' is empty''])"
    by (simp add: example_invalid_edit_def example_invalid_zone_df_def
          example_invalid_material_df_def edit_columns_def)
  finally show ?thesis .
qed
section \<open>The update engine\<close>

lemma process_row_counts_agree:
  "counts_agree (snd acc) \<Longrightarrow> counts_agree (snd (process_row otype oname acc r))"
  by (cases acc) (simp add: counts_agree_def Let_def)

lemma fold_process_row_counts_agree:
  "counts_agree (snd acc) \<Longrightarrow>
     counts_agree (snd (fold (\<lambda>r acc. process_row otype oname acc r) rs acc))"
  by (induction rs arbitrary: acc) (simp_all add: process_row_counts_agree)

lemma process_group_matched:
  "find_matching objs key = Some i \<Longrightarrow>
     process_group otype (objs, st) (key, group_df) =
       (objs[i := fst (fold (\<lambda>r acc. process_row otype (str_value key) acc r) group_df
                         (objs ! i, st))],
        snd (fold (\<lambda>r acc. process_row otype (str_value key) acc r) group_df (objs ! i, st)))"
  by (simp add: case_prod_unfold Let_def)


lemma process_sheet_ALL: "process_sheet (idf, st) (''ALL'', df) = (idf, st)"
  by simp


lemma process_sheet_present:
  "sheet_name \<noteq> ''ALL'' \<Longrightarrow> idfobjects_get idf (strip sheet_name) = Some objs \<Longrightarrow>
     process_sheet (idf, st) (sheet_name, df) =
       (AList.update (upper (strip sheet_name))
          (fst (fold (\<lambda>g acc. process_group (strip sheet_name) acc g)
                  (groupby ''ObjectName'' df) (objs, st))) idf,
        snd (fold (\<lambda>g acc. process_group (strip sheet_name) acc g)
               (groupby ''ObjectName'' df) (objs, st)))"
  by (simp add: case_prod_unfold Let_def)

lemma process_group_counts_agree:
  "counts_agree (snd acc) \<Longrightarrow> counts_agree (snd (process_group otype acc g))"
proof (cases acc; cases g)
  fix objs st key group_df
  assume inv: "counts_agree (snd acc)" and acc: "acc = (objs, st)" and g: "g = (key, group_df)"
  show ?thesis
  proof (cases "find_matching objs key")
    case None
    with inv acc g show ?thesis by (simp add: counts_agree_def)
  next
    case (Some i)
    from inv acc have "counts_agree (snd (objs ! i, st))" by simp
    from fold_process_row_counts_agree [OF this, of otype "str_value key" group_df]
    show ?thesis using Some acc g by (simp add: process_group_matched del: process_group.simps)
  qed
qed

lemma fold_process_group_counts_agree:
  "counts_agree (snd acc) \<Longrightarrow>
     counts_agree (snd (fold (\<lambda>g acc. process_group otype acc g) gs acc))"
  by (induction gs arbitrary: acc) (simp_all add: process_group_counts_agree)

lemma process_sheet_counts_agree:
  "counts_agree (snd acc) \<Longrightarrow> counts_agree (snd (process_sheet acc s))"
proof (cases acc; cases s)
  fix idf st sheet_name df
  assume inv: "counts_agree (snd acc)" and acc: "acc = (idf, st)" and s: "s = (sheet_name, df)"
  show ?thesis
  proof (cases "sheet_name \<noteq> ''ALL'' \<and> idfobjects_get idf (strip sheet_name) \<noteq> None")
    case False
    with inv acc s show ?thesis by auto
  next
    case True
    then obtain objs where objs: "idfobjects_get idf (strip sheet_name) = Some objs"
      and "sheet_name \<noteq> ''ALL''"
      by auto
    from inv acc have "counts_agree (snd (objs, st))" by simp
    from fold_process_group_counts_agree [OF this, of "strip sheet_name" "groupby ''ObjectName'' df"]
    show ?thesis using objs \<open>sheet_name \<noteq> ''ALL''\<close> acc s
      by (simp add: process_sheet_present del: process_sheet.simps)
  qed
qed

lemma fold_process_sheet_counts_agree:
  "counts_agree (snd acc) \<Longrightarrow>
     counts_agree (snd (fold (\<lambda>s acc. process_sheet acc s) ss acc))"
  by (induction ss arbitrary: acc) (simp_all add: process_sheet_counts_agree)

text \<open>
  C9. Whatever the inputs, the statistics that an update run returns have
  total_updates equal to successful_updates, and both equal to the number of records
  in updated_objects: the three grow together, and a failed row touches none of them.
\<close>

theorem update_stats_invariant:
  assumes "update_idf_from_excel idf_exists excel_exists idd_exists
             original_idf_path modified_excel_path idd_path parsed loaded = Inr (out, st)"
  shows "total_updates st = successful_updates st \<and>
         successful_updates st = int (length (updated_objects st))"
proof -
  have init: "counts_agree (snd (idf, initial_stats))" for idf :: idfobjects
    by (simp add: counts_agree_def initial_stats_def)
  have crit: "counts_agree (initial_stats\<lparr>errors := es\<rparr>)" for es
    by (simp add: counts_agree_def initial_stats_def)
  from assms have "counts_agree st"
    using crit fold_process_sheet_counts_agree [OF init]
    by (auto simp: update_idf_from_excel_def case_prod_unfold Let_def
             split: if_splits sum.splits error.splits)
  then show ?thesis by (simp add: counts_agree_def)
qed

lemma example_run:
  "update_idf_from_excel True True True ''in.idf'' ''edit.xlsx'' ''schema.idd''
     (Inr example_idf) (Inr example_edit) = Inr (Some example_updated_idf, example_stats)"
  by code_simp

theorem update_stats_invariant_witness:
  "total_updates example_stats = successful_updates example_stats \<and>
   successful_updates example_stats = int (length (updated_objects example_stats))"
  using update_stats_invariant [OF example_run] .



























lemma strip_Zone: "strip ''Zone'' = ''Zone''"
  by code_simp


section \<open>Applying an edit workbook twice\<close>


































































text \<open>
  A group whose ObjectName cells hold the number 101 matches no instance, not even one
  whose Name is the text 101: the group is one failed update.
\<close>

lemma numbered_group_unmatched:
  "map_sum id (\<lambda>p. (fst p, successful_updates (snd p), failed_updates (snd p), warnings (snd p)))
     (update_idf_from_excel True True True ''in.idf'' ''edit.xlsx'' ''schema.idd''
        (Inr [(''ZONE'', [example_numbered_zone])]) (Inr [(''Zone'', example_numbered_df)]))
     = Inr (Some [(''ZONE'', [example_numbered_zone])], 0, 1,
            [not_found_warning ''Zone'' ''101''])"
  by code_simp

end
